theory Spec2Isabelle
  imports Complex_Main
begin

section \<open>Shared schema (shared/schema.ts)\<close>

text \<open>
  The status enumerations of the schema. The three TypeScript objects share member names
  (PENDING, COMPLETED), so every constructor carries the name of its enumeration.
\<close>

datatype TaskStatus =
  Task_OPEN | Task_IN_PROGRESS | Task_PENDING_VERIFICATION | Task_COMPLETED | Task_CANCELLED

datatype SubmissionStatus = Sub_PENDING | Sub_APPROVED | Sub_REJECTED

datatype PaymentStatus = Pay_PENDING | Pay_PROCESSING | Pay_COMPLETED | Pay_FAILED

text \<open>
  A JavaScript number: \<open>NaN\<close> or a finite value. Finite values are exact rationals, so
  the rounding of IEEE doubles is not part of the model, and neither are the infinities.
\<close>

datatype number = NaN | Num rat

fun isNaN :: "number \<Rightarrow> bool" where
  "isNaN NaN = True"
| "isNaN (Num _) = False"

fun num_add :: "number \<Rightarrow> number \<Rightarrow> number" where
  "num_add (Num a) (Num b) = Num (a + b)"
| "num_add _ _ = NaN"

text \<open>\<open>num_less a b\<close> is the JavaScript \<open>a < b\<close> and \<open>num_le a b\<close> is \<open>a <= b\<close>:
  both are false as soon as one side is \<open>NaN\<close>.\<close>

fun num_less :: "number \<Rightarrow> number \<Rightarrow> bool" where
  "num_less (Num a) (Num b) = (a < b)"
| "num_less _ _ = False"

fun num_le :: "number \<Rightarrow> number \<Rightarrow> bool" where
  "num_le (Num a) (Num b) = (a \<le> b)"
| "num_le _ _ = False"

text \<open>
  The decimal columns (\<open>rewardSol\<close>, \<open>amountSol\<close>, \<open>totalEarnings\<close>,
  \<open>balanceSol\<close>, \<open>totalPaidOut\<close>, \<open>aiVerificationScore\<close>) hold strings that the code
  only copies, reads with \<open>parseFloat\<close> and writes with \<open>Number.toString\<close>. A decimal
  string is represented by the number \<open>parseFloat\<close> reads from it, so \<open>parseFloat\<close> and
  \<open>toString\<close> are the identity on the representation (\<open>parseFloat(x.toString())\<close> is
  \<open>x\<close> for every JavaScript number).
\<close>

type_synonym decimal = number

definition parseFloat :: "decimal \<Rightarrow> number" where
  "parseFloat d = d"

definition toString :: "number \<Rightarrow> decimal" where
  "toString x = x"

text \<open>Identifiers: \<open>randomUUID()\<close> is a counter of the store, so a new identifier is
  fresh. Timestamps are readings of the environment's clock.\<close>

type_synonym uuid = nat
type_synonym date = nat

record User =
  u_id :: uuid
  username :: string
  password :: string
  u_walletAddress :: "string option"
  totalEarnings :: decimal
  tasksCompleted :: nat

record Task =
  t_id :: uuid
  title :: string
  description :: string
  taskType :: string
  rewardSol :: decimal
  t_status :: TaskStatus
  verificationCriteria :: string
  maxSubmissions :: "nat option"
  currentSubmissions :: "nat option"
  deadline :: "string option"
  t_createdAt :: date
  assignedTo :: "uuid option"

record Submission =
  s_id :: uuid
  s_taskId :: uuid
  s_workerId :: uuid
  proofType :: string
  proofData :: string
  proofDescription :: "string option"
  s_status :: SubmissionStatus
  aiVerificationResult :: "string option"
  aiVerificationScore :: "decimal option"
  submittedAt :: date
  verifiedAt :: "date option"

record Payment =
  p_id :: uuid
  p_submissionId :: uuid
  p_taskId :: uuid
  p_workerId :: uuid
  p_walletAddress :: string
  amountSol :: decimal
  p_status :: PaymentStatus
  transactionSignature :: "string option"
  errorMessage :: "string option"
  p_createdAt :: date
  completedAt :: "date option"

record Budget =
  b_id :: uuid
  b_walletAddress :: string
  balanceSol :: decimal
  totalPaidOut :: decimal
  lastUpdated :: date

text \<open>Verification result from the judge, and the result of a transfer.\<close>

record VerificationResult =
  approved :: bool
  score :: number
  reasoning :: string
  suggestions :: "string list option"

record TransactionResult =
  success :: bool
  signature :: "string option"
  error :: "string option"

text \<open>JavaScript truthiness of an optional string: \<open>undefined\<close>, \<open>null\<close> and the empty
  string are falsy.\<close>

definition truthy :: "string option \<Rightarrow> bool" where
  "truthy x = (case x of None \<Rightarrow> False | Some v \<Rightarrow> v \<noteq> [])"

section \<open>The in-memory store (server/storage.ts)\<close>

text \<open>
  The external calls a request makes are recorded in order. A transfer is recorded with
  the payment it is made for and the payments of the store at the moment of the call.
\<close>

datatype event =
  Ev_verifySubmission uuid uuid
| Ev_sendPayment uuid "Payment list"
| Ev_verifyTransaction string

text \<open>
  \<open>MemStorage\<close>. Each \<open>Map\<close> is the list of its values in insertion order, which is the
  order \<open>Array.from(map.values())\<close> yields. A key of a map is always the \<open>id\<close> field of
  its value, so \<open>map.get(k)\<close> is the value whose id is \<open>k\<close>, and \<open>map.set(k, v)\<close> on a
  present key replaces the value in place.
\<close>

record world =
  users :: "User list"
  tasks :: "Task list"
  submissions :: "Submission list"
  payments :: "Payment list"
  budgetData :: "Budget option"
  next_uuid :: nat
  trace :: "event list"

definition init_world :: world where
  "init_world = \<lparr>users = [], tasks = [], submissions = [], payments = [],
     budgetData = None, next_uuid = 0, trace = []\<rparr>"

definition lookup :: "('a \<Rightarrow> uuid) \<Rightarrow> uuid \<Rightarrow> 'a list \<Rightarrow> 'a option" where
  "lookup key k xs = find (\<lambda>x. key x = k) xs"

definition modify :: "('a \<Rightarrow> uuid) \<Rightarrow> uuid \<Rightarrow> ('a \<Rightarrow> 'a) \<Rightarrow> 'a list \<Rightarrow> 'a list" where
  "modify key k f xs = map (\<lambda>x. if key x = k then f x else x) xs"

subsection \<open>Users\<close>

definition getUser :: "uuid \<Rightarrow> world \<Rightarrow> User option" where
  "getUser k s = lookup u_id k (users s)"

definition getUserByUsername :: "string \<Rightarrow> world \<Rightarrow> User option" where
  "getUserByUsername name s = find (\<lambda>u. username u = name) (users s)"

definition createUser :: "string \<Rightarrow> string \<Rightarrow> string option \<Rightarrow> world \<Rightarrow> User \<times> world" where
  "createUser name pw wallet s =
     (let user = \<lparr>u_id = next_uuid s, username = name, password = pw,
                  u_walletAddress = wallet, totalEarnings = Num 0, tasksCompleted = 0\<rparr>
      in (user, s\<lparr>users := users s @ [user], next_uuid := Suc (next_uuid s)\<rparr>))"

definition updateUserEarnings :: "uuid \<Rightarrow> decimal \<Rightarrow> world \<Rightarrow> world" where
  "updateUserEarnings k amount s =
     s\<lparr>users := modify u_id k
        (\<lambda>u. u\<lparr>totalEarnings := toString (num_add (parseFloat (totalEarnings u)) (parseFloat amount)),
               tasksCompleted := tasksCompleted u + 1\<rparr>) (users s)\<rparr>"

subsection \<open>Tasks\<close>

record InsertTask =
  it_title :: string
  it_description :: string
  it_taskType :: string
  it_rewardSol :: decimal
  it_verificationCriteria :: string
  it_maxSubmissions :: "nat option"
  it_deadline :: "string option"

definition getTask :: "uuid \<Rightarrow> world \<Rightarrow> Task option" where
  "getTask k s = lookup t_id k (tasks s)"

definition createTask :: "date \<Rightarrow> InsertTask \<Rightarrow> world \<Rightarrow> Task \<times> world" where
  "createTask now it s =
     (let task = \<lparr>t_id = next_uuid s, title = it_title it, description = it_description it,
                  taskType = it_taskType it, rewardSol = it_rewardSol it, t_status = Task_OPEN,
                  verificationCriteria = it_verificationCriteria it,
                  maxSubmissions = it_maxSubmissions it, currentSubmissions = Some 0,
                  deadline = (if truthy (it_deadline it) then it_deadline it else None),
                  t_createdAt = now, assignedTo = None\<rparr>
      in (task, s\<lparr>tasks := tasks s @ [task], next_uuid := Suc (next_uuid s)\<rparr>))"

definition updateTaskStatus :: "uuid \<Rightarrow> TaskStatus \<Rightarrow> world \<Rightarrow> world" where
  "updateTaskStatus k st s = s\<lparr>tasks := modify t_id k (\<lambda>t. t\<lparr>t_status := st\<rparr>) (tasks s)\<rparr>"

definition assignTask :: "uuid \<Rightarrow> uuid \<Rightarrow> world \<Rightarrow> world" where
  "assignTask taskId workerId s =
     s\<lparr>tasks := modify t_id taskId
        (\<lambda>t. t\<lparr>assignedTo := Some workerId, t_status := Task_IN_PROGRESS\<rparr>) (tasks s)\<rparr>"

text \<open>\<open>task.currentSubmissions || 0\<close> and the truthiness test of \<open>task.maxSubmissions\<close>.\<close>

definition current_or_0 :: "Task \<Rightarrow> nat" where
  "current_or_0 t = (case currentSubmissions t of None \<Rightarrow> 0 | Some n \<Rightarrow> n)"

definition cap_reached :: "nat option \<Rightarrow> nat \<Rightarrow> bool" where
  "cap_reached cap n = (case cap of None \<Rightarrow> False | Some m \<Rightarrow> m \<noteq> 0 \<and> n \<ge> m)"

definition incrementTaskSubmissions :: "uuid \<Rightarrow> world \<Rightarrow> world" where
  "incrementTaskSubmissions k s =
     s\<lparr>tasks := modify t_id k
        (\<lambda>t. let n = current_or_0 t + 1;
                 t1 = t\<lparr>currentSubmissions := Some n\<rparr>
             in if cap_reached (maxSubmissions t1) n
                then t1\<lparr>t_status := Task_PENDING_VERIFICATION\<rparr> else t1) (tasks s)\<rparr>"

subsection \<open>Submissions\<close>

definition getSubmission :: "uuid \<Rightarrow> world \<Rightarrow> Submission option" where
  "getSubmission k s = lookup s_id k (submissions s)"

definition getPendingSubmissions :: "world \<Rightarrow> Submission list" where
  "getPendingSubmissions s = filter (\<lambda>sub. s_status sub = Sub_PENDING) (submissions s)"

definition createSubmission ::
  "date \<Rightarrow> uuid \<Rightarrow> uuid \<Rightarrow> string \<Rightarrow> string \<Rightarrow> string option \<Rightarrow> world \<Rightarrow> Submission \<times> world" where
  "createSubmission now taskId workerId ptype pdata pdesc s =
     (let sub = \<lparr>s_id = next_uuid s, s_taskId = taskId, s_workerId = workerId,
                 proofType = ptype, proofData = pdata, proofDescription = pdesc,
                 s_status = Sub_PENDING, aiVerificationResult = None,
                 aiVerificationScore = None, submittedAt = now, verifiedAt = None\<rparr>
      in (sub, s\<lparr>submissions := submissions s @ [sub], next_uuid := Suc (next_uuid s)\<rparr>))"

definition updateSubmissionStatus ::
  "date \<Rightarrow> uuid \<Rightarrow> SubmissionStatus \<Rightarrow> string option \<Rightarrow> decimal option \<Rightarrow> world \<Rightarrow> world" where
  "updateSubmissionStatus now k st verificationResult verificationScore s =
     s\<lparr>submissions := modify s_id k
        (\<lambda>sub. sub\<lparr>s_status := st,
                   aiVerificationResult :=
                     (if truthy verificationResult then verificationResult
                      else aiVerificationResult sub),
                   aiVerificationScore :=
                     (case verificationScore of None \<Rightarrow> aiVerificationScore sub
                      | Some v \<Rightarrow> Some v),
                   verifiedAt := Some now\<rparr>) (submissions s)\<rparr>"

subsection \<open>Payments\<close>

definition getPayment :: "uuid \<Rightarrow> world \<Rightarrow> Payment option" where
  "getPayment k s = lookup p_id k (payments s)"

definition getPendingPayments :: "world \<Rightarrow> Payment list" where
  "getPendingPayments s = filter (\<lambda>p. p_status p = Pay_PENDING) (payments s)"

definition createPayment ::
  "date \<Rightarrow> uuid \<Rightarrow> uuid \<Rightarrow> uuid \<Rightarrow> string \<Rightarrow> decimal \<Rightarrow> world \<Rightarrow> Payment \<times> world" where
  "createPayment now submissionId taskId workerId wallet amount s =
     (let p = \<lparr>p_id = next_uuid s, p_submissionId = submissionId, p_taskId = taskId,
               p_workerId = workerId, p_walletAddress = wallet, amountSol = amount,
               p_status = Pay_PENDING, transactionSignature = None, errorMessage = None,
               p_createdAt = now, completedAt = None\<rparr>
      in (p, s\<lparr>payments := payments s @ [p], next_uuid := Suc (next_uuid s)\<rparr>))"

definition updatePaymentStatus ::
  "date \<Rightarrow> uuid \<Rightarrow> PaymentStatus \<Rightarrow> string option \<Rightarrow> string option \<Rightarrow> world \<Rightarrow> world" where
  "updatePaymentStatus now k st sig err s =
     s\<lparr>payments := modify p_id k
        (\<lambda>p. p\<lparr>p_status := st,
               transactionSignature := (if truthy sig then sig else transactionSignature p),
               errorMessage := (if truthy err then err else errorMessage p),
               completedAt := (if st = Pay_COMPLETED then Some now else completedAt p)\<rparr>)
        (payments s)\<rparr>"

subsection \<open>Budget\<close>

definition getBudget :: "world \<Rightarrow> Budget option" where
  "getBudget s = budgetData s"

definition updateBudget :: "date \<Rightarrow> decimal \<Rightarrow> string option \<Rightarrow> world \<Rightarrow> world" where
  "updateBudget now balance wallet s =
     (case budgetData s of
        None \<Rightarrow>
          s\<lparr>budgetData := Some \<lparr>b_id = next_uuid s,
                 b_walletAddress = (if truthy wallet then the wallet else []),
                 balanceSol = balance, totalPaidOut = Num 0, lastUpdated = now\<rparr>,
            next_uuid := Suc (next_uuid s)\<rparr>
      | Some b \<Rightarrow>
          s\<lparr>budgetData := Some (b\<lparr>balanceSol := balance,
                 b_walletAddress := (if truthy wallet then the wallet else b_walletAddress b),
                 lastUpdated := now\<rparr>)\<rparr>)"

definition addToPaidOut :: "date \<Rightarrow> decimal \<Rightarrow> world \<Rightarrow> world" where
  "addToPaidOut now amount s =
     (case budgetData s of
        None \<Rightarrow> s
      | Some b \<Rightarrow>
          s\<lparr>budgetData := Some (b\<lparr>totalPaidOut :=
                 toString (num_add (parseFloat (totalPaidOut b)) (parseFloat amount)),
               lastUpdated := now\<rparr>)\<rparr>)"

section \<open>External collaborators\<close>

text \<open>
  What the outside world answers during one request. The judge's reply is what the
  \<open>try\<close> block of \<open>verifySubmission\<close> runs into: an exception (with the message of an
  \<open>Error\<close>, or \<open>None\<close> for any other thrown value), or a parsed JSON object, read
  through the four expressions the code applies to it.
\<close>

record judge_json =
  j_approved :: bool \<comment> \<open>\<open>result.approved === true\<close>\<close>
  j_score :: number \<comment> \<open>\<open>Number(result.score)\<close>\<close>
  j_reasoning :: "string option" \<comment> \<open>\<open>result.reasoning\<close>\<close>
  j_suggestions :: "string list option"
    \<comment> \<open>\<open>result.suggestions\<close> when it is an array\<close>

datatype judge_reply = Threw "string option" | Replied judge_json

datatype tx_lookup = Tx_threw | Tx_null | Tx_found

record claim_result =
  cr_success :: bool
  cr_transactionSignature :: "string option"
  cr_amountClaimed :: "number option"
  cr_error :: "string option"

record generated_task =
  g_title :: string
  g_description :: string
  g_taskType :: string
  g_rewardSol :: decimal
  g_verificationCriteria :: string

record env =
  now :: date
  ADMIN_API_KEY :: "string option"
  judge :: "Task \<Rightarrow> string \<Rightarrow> string \<Rightarrow> string option \<Rightarrow> judge_reply"
  publicKey_ok :: "string \<Rightarrow> bool"
  employerWallet :: "string option"
  chain_transfer :: "string \<Rightarrow> number \<Rightarrow> string + string"
  getTransaction :: "string \<Rightarrow> tx_lookup"
  bcrypt_hash :: "string \<Rightarrow> string"
  is_datetime :: "string \<Rightarrow> bool"
  claude_tasks :: "string \<Rightarrow> number \<Rightarrow> nat \<Rightarrow> generated_task list"
  pumpportal_claim :: "string \<Rightarrow> claim_result"

subsection \<open>server/services/claude.ts\<close>

definition clamp_score :: "number \<Rightarrow> number" where
  "clamp_score x = (case x of NaN \<Rightarrow> Num 0 | Num q \<Rightarrow> Num (max 0 (min 100 q)))"

definition verifySubmission ::
  "env \<Rightarrow> Task \<Rightarrow> string \<Rightarrow> string \<Rightarrow> string option \<Rightarrow> VerificationResult" where
  "verifySubmission e task ptype pdata pdesc =
     (case judge e task ptype pdata pdesc of
        Replied r \<Rightarrow>
          \<lparr>approved = j_approved r,
           score = clamp_score (j_score r),
           reasoning = (if truthy (j_reasoning r) then the (j_reasoning r)
                        else ''No reasoning provided''),
           suggestions = j_suggestions r\<rparr>
      | Threw err \<Rightarrow>
          \<lparr>approved = False,
           score = Num 0,
           reasoning = ''Verification failed: '' @
             (case err of Some msg \<Rightarrow> msg | None \<Rightarrow> ''Unknown error''),
           suggestions = Some [''Please try submitting again with clearer proof'']\<rparr>)"

subsection \<open>The Solana service\<close>

definition isValidWalletAddress :: "env \<Rightarrow> string \<Rightarrow> bool" where
  "isValidWalletAddress e address = publicKey_ok e address"

text \<open>\<open>sendPayment\<close>: the two checks made before the network is used, then the rest of
  the \<open>try\<close> block, which ends with a signature or with an error message.\<close>

definition sendPayment :: "env \<Rightarrow> string \<Rightarrow> number \<Rightarrow> TransactionResult" where
  "sendPayment e toAddress amount =
     (if \<not> isValidWalletAddress e toAddress
      then \<lparr>success = False, signature = None,
            error = Some ''Invalid recipient wallet address''\<rparr>
      else if employerWallet e = None
      then \<lparr>success = False, signature = None,
            error = Some ''Employer wallet not configured''\<rparr>
      else (case chain_transfer e toAddress amount of
              Inr sig \<Rightarrow> \<lparr>success = True, signature = Some sig, error = None\<rparr>
            | Inl msg \<Rightarrow> \<lparr>success = False, signature = None, error = Some msg\<rparr>))"

text \<open>\<open>verifyTransaction\<close>, reduced to the \<open>confirmed\<close> field of its result.\<close>

definition verifyTransaction :: "env \<Rightarrow> string \<Rightarrow> bool" where
  "verifyTransaction e sig =
     (case getTransaction e sig of Tx_found \<Rightarrow> True | Tx_null \<Rightarrow> False | Tx_threw \<Rightarrow> False)"

definition getEmployerAddress :: "env \<Rightarrow> string option" where
  "getEmployerAddress e = employerWallet e"

section \<open>The routes\<close>

datatype verify_item =
  V_error uuid string
| V_verdict uuid bool number

record pay_item =
  paymentId :: uuid
  pi_success :: bool
  pi_signature :: "string option"
  pi_error :: "string option"

datatype body =
  B_error string
| B_error_details string string
| B_schema_errors
| B_user uuid string "string option"
| B_task "Task option"
| B_generated nat "Task list"
| B_submission Submission
| B_verification "Submission option" VerificationResult
| B_batch_verification nat "verify_item list"
| B_payment bool "string option" "string option" "Payment option"
| B_batch_payment nat "pay_item list"
| B_claim claim_result

type_synonym response = "nat \<times> body"

definition MAX_PAYMENT_AMOUNT_SOL :: number where
  "MAX_PAYMENT_AMOUNT_SOL = Num 10"

definition startsWith :: "string \<Rightarrow> string \<Rightarrow> bool" where
  "startsWith s p = (take (length p) s = p)"

definition requireAdminAuth ::
  "env \<Rightarrow> string option \<Rightarrow> (world \<Rightarrow> response \<times> world) \<Rightarrow> world \<Rightarrow> response \<times> world" where
  "requireAdminAuth e apiKey next s =
     (if \<not> truthy (ADMIN_API_KEY e)
      then ((503, B_error ''Admin API not configured''), s)
      else if apiKey \<noteq> ADMIN_API_KEY e
      then ((401, B_error ''Unauthorized - invalid API key''), s)
      else next s)"

subsection \<open>Users and tasks\<close>

definition post_users ::
  "env \<Rightarrow> string option \<Rightarrow> string option \<Rightarrow> string option \<Rightarrow> world \<Rightarrow> response \<times> world" where
  "post_users e uname pw wallet s =
     (if \<not> truthy uname \<or> \<not> truthy pw
      then ((400, B_error ''Username and password required''), s)
      else if length (the pw) < 6
      then ((400, B_error ''Password must be at least 6 characters''), s)
      else if truthy wallet \<and> \<not> isValidWalletAddress e (the wallet)
      then ((400, B_error ''Invalid wallet address''), s)
      else if getUserByUsername (the uname) s \<noteq> None
      then ((409, B_error ''Username already exists''), s)
      else (case createUser (the uname) (bcrypt_hash e (the pw)) wallet s of
              (user, s') \<Rightarrow>
                ((201, B_user (u_id user) (username user) (u_walletAddress user)), s')))"

record CreateTaskRequest =
  ct_title :: string
  ct_description :: string
  ct_taskType :: string
  ct_rewardSol :: decimal
  ct_verificationCriteria :: string
  ct_maxSubmissions :: "int option"
  ct_deadline :: "string option"

definition createTaskRequestSchema :: "env \<Rightarrow> CreateTaskRequest \<Rightarrow> bool" where
  "createTaskRequestSchema e r =
     (ct_title r \<noteq> [] \<and> ct_description r \<noteq> [] \<and>
      ct_taskType r \<in> set [''code'', ''social'', ''marketing'', ''design'', ''other''] \<and>
      (\<not> isNaN (parseFloat (ct_rewardSol r)) \<and> num_less (Num 0) (parseFloat (ct_rewardSol r))) \<and>
      ct_verificationCriteria r \<noteq> [] \<and>
      (case ct_maxSubmissions r of None \<Rightarrow> True | Some n \<Rightarrow> 0 < n) \<and>
      (case ct_deadline r of None \<Rightarrow> True | Some d \<Rightarrow> is_datetime e d))"

definition post_tasks :: "env \<Rightarrow> CreateTaskRequest \<Rightarrow> world \<Rightarrow> response \<times> world" where
  "post_tasks e r s =
     (if \<not> createTaskRequestSchema e r then ((400, B_schema_errors), s)
      else if num_less MAX_PAYMENT_AMOUNT_SOL (parseFloat (ct_rewardSol r))
      then ((400, B_error ''Reward exceeds maximum allowed (10 SOL)''), s)
      else (case createTask (now e)
                   \<lparr>it_title = ct_title r, it_description = ct_description r,
                    it_taskType = ct_taskType r, it_rewardSol = ct_rewardSol r,
                    it_verificationCriteria = ct_verificationCriteria r,
                    it_maxSubmissions =
                      Some (case ct_maxSubmissions r of None \<Rightarrow> 1 | Some n \<Rightarrow> nat n),
                    it_deadline = ct_deadline r\<rparr> s of
              (task, s') \<Rightarrow> ((201, B_task (Some task)), s')))"

fun generate_loop :: "env \<Rightarrow> generated_task list \<Rightarrow> world \<Rightarrow> Task list \<Rightarrow> Task list \<times> world" where
  "generate_loop e [] s created = (created, s)"
| "generate_loop e (g # gs) s created =
     (if isNaN (parseFloat (g_rewardSol g)) \<or> num_le (parseFloat (g_rewardSol g)) (Num 0) \<or>
         num_less MAX_PAYMENT_AMOUNT_SOL (parseFloat (g_rewardSol g))
      then generate_loop e gs s created
      else (case createTask (now e)
                   \<lparr>it_title = g_title g, it_description = g_description g,
                    it_taskType = g_taskType g, it_rewardSol = g_rewardSol g,
                    it_verificationCriteria = g_verificationCriteria g,
                    it_maxSubmissions = Some 1, it_deadline = None\<rparr> s of
              (task, s') \<Rightarrow> generate_loop e gs s' (created @ [task])))"

definition post_tasks_generate ::
  "env \<Rightarrow> string option \<Rightarrow> decimal option \<Rightarrow> nat option \<Rightarrow> world \<Rightarrow> response \<times> world" where
  "post_tasks_generate e projectContext budgetSol taskCount s =
     (if \<not> truthy projectContext \<or> budgetSol = None
      then ((400, B_error ''projectContext and budgetSol required''), s)
      else if isNaN (parseFloat (the budgetSol)) \<or> num_le (parseFloat (the budgetSol)) (Num 0)
      then ((400, B_error ''Invalid budget amount''), s)
      else
        (let generatedTasks = claude_tasks e (the projectContext) (parseFloat (the budgetSol))
               (case taskCount of None \<Rightarrow> 5 | Some n \<Rightarrow> if n = 0 then 5 else n)
         in if generatedTasks = []
            then ((500, B_error ''Failed to generate tasks - check ANTHROPIC_API_KEY''), s)
            else (case generate_loop e generatedTasks s [] of
                    (createdTasks, s') \<Rightarrow>
                      ((201, B_generated (length createdTasks) createdTasks), s'))))"

definition post_tasks_claim :: "env \<Rightarrow> uuid \<Rightarrow> uuid option \<Rightarrow> world \<Rightarrow> response \<times> world" where
  "post_tasks_claim e taskId workerId s =
     (case workerId of
        None \<Rightarrow> ((400, B_error ''workerId required''), s)
      | Some w \<Rightarrow>
          (case getUser w s of
             None \<Rightarrow> ((404, B_error ''Worker not found''), s)
           | Some worker \<Rightarrow>
               (case getTask taskId s of
                  None \<Rightarrow> ((404, B_error ''Task not found''), s)
                | Some task \<Rightarrow>
                    if t_status task \<noteq> Task_OPEN
                    then ((400, B_error ''Task is not open for claiming''), s)
                    else (let s' = assignTask taskId w s
                          in ((200, B_task (getTask taskId s')), s')))))"

subsection \<open>Submissions\<close>

record SubmitProofRequest =
  sp_taskId :: uuid
  sp_workerId :: uuid
  sp_proofType :: string
  sp_proofData :: string
  sp_proofDescription :: "string option"

definition submitProofRequestSchema :: "SubmitProofRequest \<Rightarrow> bool" where
  "submitProofRequestSchema r =
     (sp_proofType r \<in> set [''image'', ''url'', ''text''] \<and> sp_proofData r \<noteq> [])"

definition post_submissions :: "env \<Rightarrow> SubmitProofRequest \<Rightarrow> world \<Rightarrow> response \<times> world" where
  "post_submissions e r s =
     (if \<not> submitProofRequestSchema r then ((400, B_schema_errors), s)
      else
        (case getUser (sp_workerId r) s of
           None \<Rightarrow> ((404, B_error ''Worker not found''), s)
         | Some worker \<Rightarrow>
             (case getTask (sp_taskId r) s of
                None \<Rightarrow> ((404, B_error ''Task not found''), s)
              | Some task \<Rightarrow>
                  if t_status task = Task_COMPLETED \<or> t_status task = Task_CANCELLED
                  then ((400, B_error ''Task is closed''), s)
                  else if cap_reached (maxSubmissions task) (current_or_0 task)
                  then ((400, B_error ''Maximum submissions reached for this task''), s)
                  else
                    (case createSubmission (now e) (sp_taskId r) (sp_workerId r)
                            (sp_proofType r) (sp_proofData r) (sp_proofDescription r) s of
                       (submission, s1) \<Rightarrow>
                         ((201, B_submission submission),
                          incrementTaskSubmissions (t_id task) s1)))))"

subsection \<open>Verification\<close>

text \<open>
  The statements that follow the service-error test are the same in the single and in the
  batch route: record the verdict, and on approval create the payment (when the worker has
  a payout address) and complete the task.
\<close>

definition record_verdict ::
  "env \<Rightarrow> Submission \<Rightarrow> Task \<Rightarrow> VerificationResult \<Rightarrow> world \<Rightarrow> world" where
  "record_verdict e submission task result s =
     (let s1 = updateSubmissionStatus (now e) (s_id submission)
                 (if approved result then Sub_APPROVED else Sub_REJECTED)
                 (Some (reasoning result)) (Some (toString (score result))) s
      in if approved result
         then
           (let s2 = (case getUser (s_workerId submission) s1 of
                        None \<Rightarrow> s1
                      | Some worker \<Rightarrow>
                          if truthy (u_walletAddress worker)
                          then snd (createPayment (now e) (s_id submission) (t_id task)
                                      (s_workerId submission) (the (u_walletAddress worker))
                                      (rewardSol task) s1)
                          else s1)
            in updateTaskStatus (t_id task) Task_COMPLETED s2)
         else s1)"

definition call_verifySubmission ::
  "env \<Rightarrow> Task \<Rightarrow> Submission \<Rightarrow> world \<Rightarrow> VerificationResult \<times> world" where
  "call_verifySubmission e task submission s =
     (verifySubmission e task (proofType submission) (proofData submission)
        (if truthy (proofDescription submission) then proofDescription submission else None),
      s\<lparr>trace := trace s @ [Ev_verifySubmission (t_id task) (s_id submission)]\<rparr>)"

definition post_submissions_verify :: "env \<Rightarrow> uuid \<Rightarrow> world \<Rightarrow> response \<times> world" where
  "post_submissions_verify e sid s =
     (case getSubmission sid s of
        None \<Rightarrow> ((404, B_error ''Submission not found''), s)
      | Some submission \<Rightarrow>
          if s_status submission \<noteq> Sub_PENDING
          then ((400, B_error ''Submission already verified''), s)
          else
            (case getTask (s_taskId submission) s of
               None \<Rightarrow> ((404, B_error ''Task not found''), s)
             | Some task \<Rightarrow>
                 (case call_verifySubmission e task submission s of
                    (result, s1) \<Rightarrow>
                      if startsWith (reasoning result) ''Verification failed:''
                      then ((500, B_error_details ''Verification service error''
                                    (reasoning result)), s1)
                      else
                        (let s2 = record_verdict e submission task result s1
                         in ((200, B_verification (getSubmission (s_id submission) s2) result),
                             s2)))))"

text \<open>One turn of the loop of the batch route: the item pushed on \<open>results\<close> (none when
  the turn ends at \<open>if (!task) continue\<close>) and the store after the turn.\<close>

definition verify_batch_item ::
  "env \<Rightarrow> Submission \<Rightarrow> world \<Rightarrow> verify_item option \<times> world" where
  "verify_batch_item e submission s =
     (case getTask (s_taskId submission) s of
        None \<Rightarrow> (None, s)
      | Some task \<Rightarrow>
          (case call_verifySubmission e task submission s of
             (result, s1) \<Rightarrow>
               if startsWith (reasoning result) ''Verification failed:''
               then (Some (V_error (s_id submission) ''Verification service error''), s1)
               else (Some (V_verdict (s_id submission) (approved result) (score result)),
                     record_verdict e submission task result s1)))"

fun verify_batch_loop ::
  "env \<Rightarrow> Submission list \<Rightarrow> world \<Rightarrow> verify_item list \<Rightarrow> verify_item list \<times> world" where
  "verify_batch_loop e [] s results = (results, s)"
| "verify_batch_loop e (submission # rest) s results =
     (case verify_batch_item e submission s of
        (None, s') \<Rightarrow> verify_batch_loop e rest s' results
      | (Some item, s') \<Rightarrow> verify_batch_loop e rest s' (results @ [item]))"

definition post_verify_batch :: "env \<Rightarrow> world \<Rightarrow> response \<times> world" where
  "post_verify_batch e s =
     (case verify_batch_loop e (getPendingSubmissions s) s [] of
        (results, s') \<Rightarrow> ((200, B_batch_verification (length results) results), s'))"

subsection \<open>Payments\<close>

definition call_sendPayment ::
  "env \<Rightarrow> Payment \<Rightarrow> number \<Rightarrow> world \<Rightarrow> TransactionResult \<times> world" where
  "call_sendPayment e payment amount s =
     (sendPayment e (p_walletAddress payment) amount,
      s\<lparr>trace := trace s @ [Ev_sendPayment (p_id payment) (payments s)]\<rparr>)"

definition call_verifyTransaction :: "env \<Rightarrow> string \<Rightarrow> world \<Rightarrow> bool \<times> world" where
  "call_verifyTransaction e sig s =
     (verifyTransaction e sig, s\<lparr>trace := trace s @ [Ev_verifyTransaction sig]\<rparr>)"

definition post_payments_process :: "env \<Rightarrow> uuid \<Rightarrow> world \<Rightarrow> response \<times> world" where
  "post_payments_process e pid s =
     (case getPayment pid s of
        None \<Rightarrow> ((404, B_error ''Payment not found''), s)
      | Some payment \<Rightarrow>
          if p_status payment \<noteq> Pay_PENDING
          then ((400, B_error ''Payment already processed''), s)
          else if isNaN (parseFloat (amountSol payment)) \<or>
                  num_le (parseFloat (amountSol payment)) (Num 0)
          then ((400, B_error ''Invalid payment amount''), s)
          else if num_less MAX_PAYMENT_AMOUNT_SOL (parseFloat (amountSol payment))
          then ((400, B_error ''Payment amount exceeds maximum (10 SOL)''), s)
          else if \<not> isValidWalletAddress e (p_walletAddress payment)
          then ((400, B_error ''Invalid wallet address''),
                updatePaymentStatus (now e) (p_id payment) Pay_FAILED None
                  (Some ''Invalid wallet address'') s)
          else
            (case call_sendPayment e payment (parseFloat (amountSol payment))
                    (updatePaymentStatus (now e) (p_id payment) Pay_PROCESSING None None s) of
               (result, s2) \<Rightarrow>
                 if success result \<and> truthy (signature result)
                 then
                   (case call_verifyTransaction e (the (signature result)) s2 of
                      (confirmed, s3) \<Rightarrow>
                        if \<not> confirmed
                        then ((500, B_error ''Transaction not confirmed''),
                              updatePaymentStatus (now e) (p_id payment) Pay_FAILED None
                                (Some ''Transaction not confirmed'') s3)
                        else
                          (let s4 = updatePaymentStatus (now e) (p_id payment) Pay_COMPLETED
                                      (signature result) None s3;
                               s5 = updateUserEarnings (p_workerId payment) (amountSol payment) s4;
                               s6 = addToPaidOut (now e) (amountSol payment) s5
                           in ((200, B_payment True (signature result) None
                                       (getPayment (p_id payment) s6)), s6)))
                 else
                   (let s3 = updatePaymentStatus (now e) (p_id payment) Pay_FAILED None
                               (error result) s2
                    in ((500, B_payment False None (error result)
                                (getPayment (p_id payment) s3)), s3))))"

text \<open>One turn of the loop of \<open>process-all\<close>: the item pushed on \<open>results\<close> and the
  store after the turn.\<close>

definition process_all_item :: "env \<Rightarrow> Payment \<Rightarrow> world \<Rightarrow> pay_item \<times> world" where
  "process_all_item e payment s =
     (if isNaN (parseFloat (amountSol payment)) \<or>
         num_le (parseFloat (amountSol payment)) (Num 0) \<or>
         num_less MAX_PAYMENT_AMOUNT_SOL (parseFloat (amountSol payment))
      then (\<lparr>paymentId = p_id payment, pi_success = False, pi_signature = None,
             pi_error = Some ''Invalid payment amount''\<rparr>,
            updatePaymentStatus (now e) (p_id payment) Pay_FAILED None
              (Some ''Invalid payment amount'') s)
      else if \<not> isValidWalletAddress e (p_walletAddress payment)
      then (\<lparr>paymentId = p_id payment, pi_success = False, pi_signature = None,
             pi_error = Some ''Invalid wallet address''\<rparr>,
            updatePaymentStatus (now e) (p_id payment) Pay_FAILED None
              (Some ''Invalid wallet address'') s)
      else
        (case call_sendPayment e payment (parseFloat (amountSol payment))
                (updatePaymentStatus (now e) (p_id payment) Pay_PROCESSING None None s) of
           (result, s2) \<Rightarrow>
             (\<lparr>paymentId = p_id payment, pi_success = success result,
               pi_signature = signature result, pi_error = error result\<rparr>,
              if success result \<and> truthy (signature result)
              then addToPaidOut (now e) (amountSol payment)
                     (updateUserEarnings (p_workerId payment) (amountSol payment)
                        (updatePaymentStatus (now e) (p_id payment) Pay_COMPLETED
                           (signature result) None s2))
              else updatePaymentStatus (now e) (p_id payment) Pay_FAILED None
                     (error result) s2)))"

fun process_all_loop ::
  "env \<Rightarrow> Payment list \<Rightarrow> world \<Rightarrow> pay_item list \<Rightarrow> pay_item list \<times> world" where
  "process_all_loop e [] s results = (results, s)"
| "process_all_loop e (payment # rest) s results =
     (case process_all_item e payment s of
        (item, s') \<Rightarrow> process_all_loop e rest s' (results @ [item]))"

definition post_payments_process_all :: "env \<Rightarrow> world \<Rightarrow> response \<times> world" where
  "post_payments_process_all e s =
     (case process_all_loop e (getPendingPayments s) s [] of
        (results, s') \<Rightarrow> ((200, B_batch_payment (length results) results), s'))"

subsection \<open>Budget\<close>

definition post_budget_claim_rewards :: "env \<Rightarrow> string option \<Rightarrow> world \<Rightarrow> response \<times> world" where
  "post_budget_claim_rewards e wallet s =
     (let walletAddress = (if truthy wallet then wallet else getEmployerAddress e)
      in if \<not> truthy walletAddress then ((400, B_error ''Wallet address required''), s)
         else if \<not> isValidWalletAddress e (the walletAddress)
         then ((400, B_error ''Invalid wallet address''), s)
         else
           (let result = pumpportal_claim e (the walletAddress)
            in if cr_success result \<and>
                  (case cr_amountClaimed result of
                     None \<Rightarrow> False | Some NaN \<Rightarrow> False | Some (Num q) \<Rightarrow> q \<noteq> 0)
               then ((200, B_claim result),
                     updateBudget (now e)
                       (toString (num_add
                          (parseFloat (case getBudget s of None \<Rightarrow> Num 0
                                       | Some b \<Rightarrow> balanceSol b))
                          (the (cr_amountClaimed result))))
                       walletAddress s)
               else ((200, B_claim result), s)))"

section \<open>Requests and reachable stores\<close>

text \<open>
  The requests that can change the store (every other route only reads it). The first
  argument of an admin route is the API key of the request. A request is handled to its
  end before the next one starts.
\<close>

datatype request =
  Post_users "string option" "string option" "string option"
| Post_tasks "string option" CreateTaskRequest
| Post_tasks_generate "string option" "string option" "decimal option" "nat option"
| Post_tasks_claim uuid "uuid option"
| Post_submissions SubmitProofRequest
| Post_submissions_verify "string option" uuid
| Post_verify_batch "string option"
| Post_payments_process "string option" uuid
| Post_payments_process_all "string option"
| Post_budget_claim_rewards "string option" "string option"

fun handle :: "env \<Rightarrow> request \<Rightarrow> world \<Rightarrow> response \<times> world" where
  "handle e (Post_users uname pw wallet) s = post_users e uname pw wallet s"
| "handle e (Post_tasks key r) s = requireAdminAuth e key (post_tasks e r) s"
| "handle e (Post_tasks_generate key ctx budget n) s =
     requireAdminAuth e key (post_tasks_generate e ctx budget n) s"
| "handle e (Post_tasks_claim taskId workerId) s = post_tasks_claim e taskId workerId s"
| "handle e (Post_submissions r) s = post_submissions e r s"
| "handle e (Post_submissions_verify key sid) s =
     requireAdminAuth e key (post_submissions_verify e sid) s"
| "handle e (Post_verify_batch key) s = requireAdminAuth e key (post_verify_batch e) s"
| "handle e (Post_payments_process key pid) s =
     requireAdminAuth e key (post_payments_process e pid) s"
| "handle e (Post_payments_process_all key) s =
     requireAdminAuth e key (post_payments_process_all e) s"
| "handle e (Post_budget_claim_rewards key wallet) s =
     requireAdminAuth e key (post_budget_claim_rewards e wallet) s"

inductive reachable :: "world \<Rightarrow> bool" where
  reachable_init: "reachable init_world"
| reachable_step: "reachable s \<Longrightarrow> reachable (snd (handle e req s))"

section \<open>A run of the service\<close>

text \<open>
  A worker registers with a payout address, a task with reward 0.05 and cap 1 is created,
  the worker submits a proof, the judge approves it with score 92. The transfer executor
  answers with a signature, and the confirmation checker does not find the transaction.
\<close>

definition demo_env :: env where
  "demo_env = \<lparr>now = 7, ADMIN_API_KEY = Some ''key'',
     judge = (\<lambda>_ _ _ _. Replied \<lparr>j_approved = True, j_score = Num 92,
                j_reasoning = Some ''meets the criteria'', j_suggestions = None\<rparr>),
     publicKey_ok = (\<lambda>a. a = ''W''),
     employerWallet = Some ''E'',
     chain_transfer = (\<lambda>_ _. Inr ''sig''),
     getTransaction = (\<lambda>_. Tx_null),
     bcrypt_hash = (\<lambda>p. p),
     is_datetime = (\<lambda>_. True),
     claude_tasks = (\<lambda>_ _ _. []),
     pumpportal_claim = (\<lambda>_. \<lparr>cr_success = True, cr_transactionSignature = Some ''claim'',
                cr_amountClaimed = Some (Num 1), cr_error = None\<rparr>)\<rparr>"

definition demo_task_request :: CreateTaskRequest where
  "demo_task_request = \<lparr>ct_title = ''t'', ct_description = ''d'', ct_taskType = ''code'',
     ct_rewardSol = Num (1 / 20), ct_verificationCriteria = ''c'', ct_maxSubmissions = None,
     ct_deadline = None\<rparr>"

definition demo_proof :: SubmitProofRequest where
  "demo_proof = \<lparr>sp_taskId = 1, sp_workerId = 0, sp_proofType = ''text'',
     sp_proofData = ''done'', sp_proofDescription = None\<rparr>"

definition demo_user :: User where
  "demo_user = \<lparr>u_id = 0, username = ''worker'', password = ''secret'',
     u_walletAddress = Some ''W'', totalEarnings = Num 0, tasksCompleted = 0\<rparr>"

definition demo_task :: Task where
  "demo_task = \<lparr>t_id = 1, title = ''t'', description = ''d'', taskType = ''code'',
     rewardSol = Num (1 / 20), t_status = Task_OPEN, verificationCriteria = ''c'',
     maxSubmissions = Some 1, currentSubmissions = Some 0, deadline = None,
     t_createdAt = 7, assignedTo = None\<rparr>"

definition demo_submission :: Submission where
  "demo_submission = \<lparr>s_id = 2, s_taskId = 1, s_workerId = 0, proofType = ''text'',
     proofData = ''done'', proofDescription = None, s_status = Sub_PENDING,
     aiVerificationResult = None, aiVerificationScore = None, submittedAt = 7,
     verifiedAt = None\<rparr>"

definition demo_payment :: Payment where
  "demo_payment = \<lparr>p_id = 3, p_submissionId = 2, p_taskId = 1, p_workerId = 0,
     p_walletAddress = ''W'', amountSol = Num (1 / 20), p_status = Pay_PENDING,
     transactionSignature = None, errorMessage = None, p_createdAt = 7, completedAt = None\<rparr>"

definition world_registered :: world where
  "world_registered = init_world\<lparr>users := [demo_user], next_uuid := 1\<rparr>"

definition world_task :: world where
  "world_task = world_registered\<lparr>tasks := [demo_task], next_uuid := 2\<rparr>"

definition world_submitted :: world where
  "world_submitted = world_task
     \<lparr>tasks := [demo_task\<lparr>t_status := Task_PENDING_VERIFICATION, currentSubmissions := Some 1\<rparr>],
      submissions := [demo_submission], next_uuid := 3\<rparr>"

definition world_approved :: world where
  "world_approved = world_submitted
     \<lparr>tasks := [demo_task\<lparr>t_status := Task_COMPLETED, currentSubmissions := Some 1\<rparr>],
      submissions := [demo_submission\<lparr>s_status := Sub_APPROVED,
         aiVerificationResult := Some ''meets the criteria'',
         aiVerificationScore := Some (Num 92), verifiedAt := Some 7\<rparr>],
      payments := [demo_payment], next_uuid := 4, trace := [Ev_verifySubmission 1 2]\<rparr>"

text \<open>The same store with a payment of 11 SOL, above the cap of 10.\<close>

definition world_overcap :: world where
  "world_overcap = world_approved\<lparr>payments := [demo_payment\<lparr>amountSol := Num 11\<rparr>]\<rparr>"

text \<open>A judge whose genuine verdict starts with the words of a service error.\<close>

definition wordy_env :: env where
  "wordy_env = demo_env\<lparr>judge := (\<lambda>_ _ _ _. Replied \<lparr>j_approved = False, j_score = Num 10,
     j_reasoning = Some ''Verification failed: the proof shows another account'',
     j_suggestions = None\<rparr>)\<rparr>"

text \<open>A judge call that throws, and a confirmation checker that finds the transaction.\<close>

definition failing_env :: env where
  "failing_env = demo_env\<lparr>judge := (\<lambda>_ _ _ _. Threw (Some ''timeout''))\<rparr>"

definition confirm_env :: env where
  "confirm_env = demo_env\<lparr>getTransaction := (\<lambda>_. Tx_found)\<rparr>"

definition demo_decided :: Submission where
  "demo_decided = demo_submission\<lparr>s_status := Sub_APPROVED,
     aiVerificationResult := Some ''meets the criteria'',
     aiVerificationScore := Some (Num 92), verifiedAt := Some 7\<rparr>"

text \<open>The budget is created by the first claim of creator rewards: before the settlement
  (\<open>world_funded\<close>), or after it (\<open>world_paid\<close>, then \<open>world_late_budget\<close>).\<close>

definition demo_budget :: Budget where
  "demo_budget = \<lparr>b_id = 4, b_walletAddress = ''W'', balanceSol = Num 1,
     totalPaidOut = Num 0, lastUpdated = 7\<rparr>"

definition world_funded :: world where
  "world_funded = world_approved\<lparr>budgetData := Some demo_budget, next_uuid := 5\<rparr>"

definition world_paid :: world where
  "world_paid = world_approved
     \<lparr>users := [demo_user\<lparr>totalEarnings := Num (1 / 20), tasksCompleted := 1\<rparr>],
      payments := [demo_payment\<lparr>p_status := Pay_COMPLETED,
         transactionSignature := Some ''sig'', completedAt := Some 7\<rparr>],
      trace := [Ev_verifySubmission 1 2,
         Ev_sendPayment 3 [demo_payment\<lparr>p_status := Pay_PROCESSING\<rparr>],
         Ev_verifyTransaction ''sig'']\<rparr>"

definition world_late_budget :: world where
  "world_late_budget = world_paid\<lparr>budgetData := Some demo_budget, next_uuid := 5\<rparr>"

text \<open>The same run with a worker who registered without a payout address.\<close>

definition nowallet_registered :: world where
  "nowallet_registered =
     init_world\<lparr>users := [demo_user\<lparr>u_walletAddress := None\<rparr>], next_uuid := 1\<rparr>"

definition nowallet_task :: world where
  "nowallet_task = nowallet_registered\<lparr>tasks := [demo_task], next_uuid := 2\<rparr>"

definition nowallet_submitted :: world where
  "nowallet_submitted = nowallet_task
     \<lparr>tasks := [demo_task\<lparr>t_status := Task_PENDING_VERIFICATION, currentSubmissions := Some 1\<rparr>],
      submissions := [demo_submission], next_uuid := 3\<rparr>"

definition world_unpaid :: world where
  "world_unpaid = nowallet_submitted
     \<lparr>tasks := [demo_task\<lparr>t_status := Task_COMPLETED, currentSubmissions := Some 1\<rparr>],
      submissions := [demo_decided], trace := [Ev_verifySubmission 1 2]\<rparr>"

section \<open>Consistency of the store\<close>

definition ids_ok :: "world \<Rightarrow> bool" where
  "ids_ok s = (distinct (map u_id (users s)) \<and> distinct (map t_id (tasks s)) \<and>
     distinct (map s_id (submissions s)) \<and> distinct (map p_id (payments s)) \<and>
     (\<forall>u \<in> set (users s). u_id u < next_uuid s) \<and>
     (\<forall>t \<in> set (tasks s). t_id t < next_uuid s) \<and>
     (\<forall>x \<in> set (submissions s). s_id x < next_uuid s) \<and>
     (\<forall>p \<in> set (payments s). p_id p < next_uuid s))"

definition cap_ok :: "Task \<Rightarrow> bool" where
  "cap_ok t = (case maxSubmissions t of None \<Rightarrow> False
     | Some m \<Rightarrow> 1 \<le> m \<and> current_or_0 t \<le> m \<and>
         (current_or_0 t < m \<or>
          t_status t \<in> {Task_PENDING_VERIFICATION, Task_COMPLETED, Task_CANCELLED}))"

definition refs_ok :: "world \<Rightarrow> bool" where
  "refs_ok s = (\<forall>sub \<in> set (submissions s).
     getTask (s_taskId sub) s \<noteq> None \<and> getUser (s_workerId sub) s \<noteq> None)"

definition payment_ok :: "world \<Rightarrow> Payment \<Rightarrow> bool" where
  "payment_ok s p =
     (map_option (\<lambda>sub. (s_status sub, s_taskId sub, s_workerId sub))
        (getSubmission (p_submissionId p) s) = Some (Sub_APPROVED, p_taskId p, p_workerId p) \<and>
      map_option rewardSol (getTask (p_taskId p) s) = Some (amountSol p) \<and>
      map_option u_walletAddress (getUser (p_workerId p) s) = Some (Some (p_walletAddress p)) \<and>
      p_walletAddress p \<noteq> [])"

definition has_wallet :: "world \<Rightarrow> Submission \<Rightarrow> bool" where
  "has_wallet s sub =
     (case getUser (s_workerId sub) s of None \<Rightarrow> False | Some u \<Rightarrow> truthy (u_walletAddress u))"


definition pays_ok :: "world \<Rightarrow> bool" where
  "pays_ok s = (distinct (map p_submissionId (payments s)) \<and>
     (\<forall>p \<in> set (payments s). payment_ok s p) \<and>
     (\<forall>sub \<in> set (submissions s). s_status sub = Sub_APPROVED \<and> has_wallet s sub \<longrightarrow>
        s_id sub \<in> set (map p_submissionId (payments s))))"

definition consistent :: "world \<Rightarrow> bool" where
  "consistent s = (ids_ok s \<and> (\<forall>t \<in> set (tasks s). cap_ok t) \<and> refs_ok s \<and> pays_ok s)"


definition incremented :: "Task \<Rightarrow> Task" where
  "incremented t =
     (let n = current_or_0 t + 1; t1 = t\<lparr>currentSubmissions := Some n\<rparr>
      in if cap_reached (maxSubmissions t1) n
         then t1\<lparr>t_status := Task_PENDING_VERIFICATION\<rparr> else t1)"

definition pending_here :: "Submission list \<Rightarrow> world \<Rightarrow> bool" where
  "pending_here xs s = (consistent s \<and> distinct (map s_id xs) \<and>
     (\<forall>x \<in> set xs. x \<in> set (submissions s) \<and> s_status x = Sub_PENDING))"

text \<open>A recorded transfer call is made with the payment already \<open>processing\<close> in the
  store.\<close>

definition processing_at_call :: "event \<Rightarrow> bool" where
  "processing_at_call ev =
     (case ev of
        Ev_sendPayment k snapshot \<Rightarrow>
          map_option p_status (lookup p_id k snapshot) = Some Pay_PROCESSING
      | Ev_verifySubmission _ _ \<Rightarrow> True
      | Ev_verifyTransaction _ \<Rightarrow> True)"


text \<open>Loop invariants of the two batch routes.\<close>

definition transfers_ok :: "world \<Rightarrow> Payment list \<Rightarrow> world \<Rightarrow> bool" where
  "transfers_ok s0 xs s =
     ((\<forall>x \<in> set xs. p_id x \<in> set (map p_id (payments s))) \<and>
      (\<exists>new. trace s = trace s0 @ new \<and> (\<forall>ev \<in> set new. processing_at_call ev)))"







definition completed_total :: "Payment list \<Rightarrow> number" where
  "completed_total ps =
     foldr (\<lambda>p acc. num_add (parseFloat (amountSol p)) acc)
       (filter (\<lambda>p. p_status p = Pay_COMPLETED) ps) (Num 0)"

definition budget_matches :: "world \<Rightarrow> bool" where
  "budget_matches s =
     (case budgetData s of None \<Rightarrow> False
      | Some b \<Rightarrow> parseFloat (totalPaidOut b) = completed_total (payments s))"


section \<open>Results of a failed judge call\<close>





section \<open>Evaluating the run\<close>

lemmas demo_defs = demo_env_def demo_task_request_def demo_proof_def demo_user_def demo_task_def
  demo_submission_def demo_payment_def world_registered_def world_task_def world_submitted_def
  world_approved_def world_overcap_def init_world_def wordy_env_def failing_env_def
  confirm_env_def demo_decided_def demo_budget_def world_funded_def world_paid_def
  world_late_budget_def nowallet_registered_def nowallet_task_def nowallet_submitted_def
  world_unpaid_def

lemmas store_defs = lookup_def modify_def getUser_def getUserByUsername_def createUser_def
  updateUserEarnings_def getTask_def createTask_def updateTaskStatus_def assignTask_def
  current_or_0_def cap_reached_def incrementTaskSubmissions_def getSubmission_def
  getPendingSubmissions_def createSubmission_def updateSubmissionStatus_def getPayment_def
  getPendingPayments_def createPayment_def updatePaymentStatus_def getBudget_def
  updateBudget_def addToPaidOut_def parseFloat_def toString_def truthy_def

lemmas route_defs = requireAdminAuth_def post_users_def createTaskRequestSchema_def post_tasks_def
  post_tasks_generate_def post_tasks_claim_def submitProofRequestSchema_def post_submissions_def
  record_verdict_def call_verifySubmission_def post_submissions_verify_def verify_batch_item_def
  post_verify_batch_def call_sendPayment_def call_verifyTransaction_def post_payments_process_def
  process_all_item_def post_payments_process_all_def post_budget_claim_rewards_def
  verifySubmission_def clamp_score_def isValidWalletAddress_def sendPayment_def
  verifyTransaction_def getEmployerAddress_def MAX_PAYMENT_AMOUNT_SOL_def startsWith_def

lemma step_register:
  "snd (handle demo_env (Post_users (Some ''worker'') (Some ''secret'') (Some ''W'')) init_world)
     = world_registered"
  by (simp add: demo_defs store_defs route_defs Let_def)

lemma step_task:
  "snd (handle demo_env (Post_tasks (Some ''key'') demo_task_request) world_registered)
     = world_task"
  by (simp add: demo_defs store_defs route_defs Let_def)

lemma step_submit:
  "snd (handle demo_env (Post_submissions demo_proof) world_task) = world_submitted"
  by (simp add: demo_defs store_defs route_defs Let_def)


lemma reachable_world_submitted: "reachable world_submitted"
  using reachable_step [OF reachable_step [OF reachable_step [OF reachable_init]]]
  by (metis step_register step_task step_submit)












section \<open>Lists as maps\<close>

lemma lookup_Some_D: "lookup key k xs = Some x \<Longrightarrow> x \<in> set xs \<and> key x = k"
  by (auto simp: lookup_def find_Some_iff)

lemma lookup_None_iff: "lookup key k xs = None \<longleftrightarrow> k \<notin> key ` set xs"
  by (auto simp: lookup_def find_None_iff)

lemma lookup_distinct: "distinct (map key xs) \<Longrightarrow> x \<in> set xs \<Longrightarrow> lookup key (key x) xs = Some x"
  unfolding lookup_def
  by (induction xs) (auto simp: rev_image_eqI)

lemma lookup_append:
  "lookup key k (xs @ ys) = (case lookup key k xs of None \<Rightarrow> lookup key k ys | Some x \<Rightarrow> Some x)"
  unfolding lookup_def by (induction xs) auto

lemma lookup_single: "lookup key k [x] = (if key x = k then Some x else None)"
  by (simp add: lookup_def)

lemma map_modify_same:
  "(\<And>x. g (f x) = g x) \<Longrightarrow> map g (modify key k f xs) = map g xs"
  by (simp add: modify_def)

lemma lookup_modify:
  "(\<And>x. key (f x) = key x) \<Longrightarrow>
   lookup key j (modify key k f xs) =
     (if j = k then map_option f (lookup key j xs) else lookup key j xs)"
  unfolding lookup_def modify_def by (induction xs) auto

lemma list_all_modify:
  "list_all P xs \<Longrightarrow> (\<And>x. x \<in> set xs \<Longrightarrow> key x = k \<Longrightarrow> P x \<Longrightarrow> P (f x)) \<Longrightarrow> list_all P (modify key k f xs)"
  by (auto simp: modify_def list_all_iff)

lemma length_modify [simp]: "length (modify key k f xs) = length xs"
  by (simp add: modify_def)

lemma mem_modify_other:
  "x \<in> set xs \<Longrightarrow> key x \<noteq> k \<Longrightarrow> x \<in> set (modify key k f xs)"
  by (force simp: modify_def)


lemma ball_modify:
  "(\<forall>x \<in> set (modify key k f xs). P x) \<longleftrightarrow> (\<forall>x \<in> set xs. P (if key x = k then f x else x))"
  by (auto simp: modify_def)

lemma lookup_fresh: "\<forall>x \<in> set xs. key x < n \<Longrightarrow> lookup key n xs = None"
  by (auto simp: lookup_None_iff)

lemma lookup_unique:
  "distinct (map key xs) \<Longrightarrow> lookup key k xs = Some t \<Longrightarrow> x \<in> set xs \<Longrightarrow> key x = k \<Longrightarrow> x = t"
  using lookup_distinct by fastforce

section \<open>What each store operation changes\<close>

lemma createUser_world [simp]:
  "users (snd (createUser name pw wallet s)) = users s @ [fst (createUser name pw wallet s)]"
  "tasks (snd (createUser name pw wallet s)) = tasks s"
  "submissions (snd (createUser name pw wallet s)) = submissions s"
  "payments (snd (createUser name pw wallet s)) = payments s"
  "budgetData (snd (createUser name pw wallet s)) = budgetData s"
  "next_uuid (snd (createUser name pw wallet s)) = Suc (next_uuid s)"
  "trace (snd (createUser name pw wallet s)) = trace s"
  by (simp_all add: createUser_def Let_def)

lemma createTask_world [simp]:
  "users (snd (createTask d it s)) = users s"
  "tasks (snd (createTask d it s)) = tasks s @ [fst (createTask d it s)]"
  "submissions (snd (createTask d it s)) = submissions s"
  "payments (snd (createTask d it s)) = payments s"
  "budgetData (snd (createTask d it s)) = budgetData s"
  "next_uuid (snd (createTask d it s)) = Suc (next_uuid s)"
  "trace (snd (createTask d it s)) = trace s"
  by (simp_all add: createTask_def Let_def)

lemma createSubmission_world [simp]:
  "users (snd (createSubmission d k w pt pd ds s)) = users s"
  "tasks (snd (createSubmission d k w pt pd ds s)) = tasks s"
  "submissions (snd (createSubmission d k w pt pd ds s)) = submissions s @ [fst (createSubmission d k w pt pd ds s)]"
  "payments (snd (createSubmission d k w pt pd ds s)) = payments s"
  "budgetData (snd (createSubmission d k w pt pd ds s)) = budgetData s"
  "next_uuid (snd (createSubmission d k w pt pd ds s)) = Suc (next_uuid s)"
  "trace (snd (createSubmission d k w pt pd ds s)) = trace s"
  by (simp_all add: createSubmission_def Let_def)

lemma createPayment_world [simp]:
  "users (snd (createPayment d sid tid w addr amt s)) = users s"
  "tasks (snd (createPayment d sid tid w addr amt s)) = tasks s"
  "submissions (snd (createPayment d sid tid w addr amt s)) = submissions s"
  "payments (snd (createPayment d sid tid w addr amt s)) = payments s @ [fst (createPayment d sid tid w addr amt s)]"
  "budgetData (snd (createPayment d sid tid w addr amt s)) = budgetData s"
  "next_uuid (snd (createPayment d sid tid w addr amt s)) = Suc (next_uuid s)"
  "trace (snd (createPayment d sid tid w addr amt s)) = trace s"
  by (simp_all add: createPayment_def Let_def)

lemma updateUserEarnings_frame [simp]:
  "tasks (updateUserEarnings k amount s) = tasks s"
  "submissions (updateUserEarnings k amount s) = submissions s"
  "payments (updateUserEarnings k amount s) = payments s"
  "budgetData (updateUserEarnings k amount s) = budgetData s"
  "next_uuid (updateUserEarnings k amount s) = next_uuid s"
  "trace (updateUserEarnings k amount s) = trace s"
  by (simp_all add: updateUserEarnings_def)

lemma updateTaskStatus_frame [simp]:
  "users (updateTaskStatus k st s) = users s"
  "submissions (updateTaskStatus k st s) = submissions s"
  "payments (updateTaskStatus k st s) = payments s"
  "budgetData (updateTaskStatus k st s) = budgetData s"
  "next_uuid (updateTaskStatus k st s) = next_uuid s"
  "trace (updateTaskStatus k st s) = trace s"
  by (simp_all add: updateTaskStatus_def)

lemma assignTask_frame [simp]:
  "users (assignTask k w s) = users s"
  "submissions (assignTask k w s) = submissions s"
  "payments (assignTask k w s) = payments s"
  "budgetData (assignTask k w s) = budgetData s"
  "next_uuid (assignTask k w s) = next_uuid s"
  "trace (assignTask k w s) = trace s"
  by (simp_all add: assignTask_def)

lemma incrementTaskSubmissions_frame [simp]:
  "users (incrementTaskSubmissions k s) = users s"
  "submissions (incrementTaskSubmissions k s) = submissions s"
  "payments (incrementTaskSubmissions k s) = payments s"
  "budgetData (incrementTaskSubmissions k s) = budgetData s"
  "next_uuid (incrementTaskSubmissions k s) = next_uuid s"
  "trace (incrementTaskSubmissions k s) = trace s"
  by (simp_all add: incrementTaskSubmissions_def)

lemma updateSubmissionStatus_frame [simp]:
  "users (updateSubmissionStatus d k st vr vs s) = users s"
  "tasks (updateSubmissionStatus d k st vr vs s) = tasks s"
  "payments (updateSubmissionStatus d k st vr vs s) = payments s"
  "budgetData (updateSubmissionStatus d k st vr vs s) = budgetData s"
  "next_uuid (updateSubmissionStatus d k st vr vs s) = next_uuid s"
  "trace (updateSubmissionStatus d k st vr vs s) = trace s"
  by (simp_all add: updateSubmissionStatus_def)

lemma updatePaymentStatus_frame [simp]:
  "users (updatePaymentStatus d k st sg err s) = users s"
  "tasks (updatePaymentStatus d k st sg err s) = tasks s"
  "submissions (updatePaymentStatus d k st sg err s) = submissions s"
  "budgetData (updatePaymentStatus d k st sg err s) = budgetData s"
  "next_uuid (updatePaymentStatus d k st sg err s) = next_uuid s"
  "trace (updatePaymentStatus d k st sg err s) = trace s"
  by (simp_all add: updatePaymentStatus_def)

lemma addToPaidOut_frame [simp]:
  "users (addToPaidOut d amount s) = users s"
  "tasks (addToPaidOut d amount s) = tasks s"
  "submissions (addToPaidOut d amount s) = submissions s"
  "payments (addToPaidOut d amount s) = payments s"
  "next_uuid (addToPaidOut d amount s) = next_uuid s"
  "trace (addToPaidOut d amount s) = trace s"
  by (simp_all add: addToPaidOut_def split: option.split)

lemma updateBudget_frame [simp]:
  "users (updateBudget d bal wallet s) = users s"
  "tasks (updateBudget d bal wallet s) = tasks s"
  "submissions (updateBudget d bal wallet s) = submissions s"
  "payments (updateBudget d bal wallet s) = payments s"
  "trace (updateBudget d bal wallet s) = trace s"
  by (simp_all add: updateBudget_def split: option.split)

lemma fst_create [simp]:
  "fst (createUser name pw wallet s) =
     \<lparr>u_id = next_uuid s, username = name, password = pw, u_walletAddress = wallet,
      totalEarnings = Num 0, tasksCompleted = 0\<rparr>"
  "fst (createSubmission d k w pt pd ds s) =
     \<lparr>s_id = next_uuid s, s_taskId = k, s_workerId = w, proofType = pt, proofData = pd,
      proofDescription = ds, s_status = Sub_PENDING, aiVerificationResult = None,
      aiVerificationScore = None, submittedAt = d, verifiedAt = None\<rparr>"
  "fst (createPayment d sid tid w addr amt s) =
     \<lparr>p_id = next_uuid s, p_submissionId = sid, p_taskId = tid, p_workerId = w,
      p_walletAddress = addr, amountSol = amt, p_status = Pay_PENDING,
      transactionSignature = None, errorMessage = None, p_createdAt = d, completedAt = None\<rparr>"
  by (simp_all add: createUser_def createSubmission_def createPayment_def Let_def)

lemma fst_createTask [simp]:
  "t_id (fst (createTask d it s)) = next_uuid s"
  "rewardSol (fst (createTask d it s)) = it_rewardSol it"
  "t_status (fst (createTask d it s)) = Task_OPEN"
  "maxSubmissions (fst (createTask d it s)) = it_maxSubmissions it"
  "currentSubmissions (fst (createTask d it s)) = Some 0"
  by (simp_all add: createTask_def Let_def)

lemmas wf_defs = consistent_def ids_ok_def refs_ok_def pays_ok_def payment_ok_def has_wallet_def
  getUser_def getTask_def getSubmission_def getPayment_def

lemmas modify_simps = map_modify_same lookup_modify ball_modify option.map_comp comp_def

lemma wf_init: "consistent init_world"
  by (simp add: wf_defs init_world_def)

lemma wf_trace [simp]: "consistent (s\<lparr>trace := tr\<rparr>) = consistent s"
  by (simp add: wf_defs)

lemma wf_createUser: "consistent s \<Longrightarrow> consistent (snd (createUser name pw wallet s))"
  unfolding wf_defs
  by (fastforce simp: lookup_append less_Suc_eq split: option.splits)

lemma wf_updateUserEarnings: "consistent s \<Longrightarrow> consistent (updateUserEarnings k amount s)"
  unfolding wf_defs
  by (auto simp: updateUserEarnings_def modify_simps split: option.splits)

lemma wf_updatePaymentStatus: "consistent s \<Longrightarrow> consistent (updatePaymentStatus d k st sg err s)"
  unfolding wf_defs
  by (auto simp: updatePaymentStatus_def modify_simps split: option.splits)

lemma wf_addToPaidOut: "consistent s \<Longrightarrow> consistent (addToPaidOut d amount s)"
  unfolding wf_defs by auto

lemma wf_updateBudget: "consistent s \<Longrightarrow> consistent (updateBudget d bal wallet s)"
  unfolding wf_defs
  by (auto simp: updateBudget_def less_Suc_eq split: option.splits)

lemma wf_createTask:
  "consistent s \<Longrightarrow> it_maxSubmissions it = Some m \<Longrightarrow> 1 \<le> m \<Longrightarrow> consistent (snd (createTask d it s))"
  unfolding wf_defs
  by (fastforce simp: lookup_append less_Suc_eq cap_ok_def current_or_0_def split: option.splits)

lemma cap_ok_assign:
  "cap_ok t \<Longrightarrow> t_status t = Task_OPEN \<Longrightarrow>
   cap_ok (t\<lparr>assignedTo := w, t_status := Task_IN_PROGRESS\<rparr>)"
  by (auto simp: cap_ok_def current_or_0_def split: option.splits)

lemma wf_task_unique:
  "consistent s \<Longrightarrow> getTask k s = Some t \<Longrightarrow> x \<in> set (tasks s) \<Longrightarrow> t_id x = k \<Longrightarrow> x = t"
  using lookup_unique [of t_id "tasks s" k t x] by (simp add: wf_defs)

lemma wf_assignTask:
  assumes "consistent s" "getTask k s = Some t" "t_status t = Task_OPEN"
  shows "consistent (assignTask k w s)"
proof -
  have "\<forall>x \<in> set (tasks (assignTask k w s)). cap_ok x"
    using assms wf_task_unique [OF assms(1,2)]
    by (auto simp: assignTask_def ball_modify consistent_def cap_ok_assign)
  moreover have "ids_ok (assignTask k w s)"
    using assms(1) by (auto simp: wf_defs assignTask_def modify_simps)
  moreover have "refs_ok (assignTask k w s)"
    using assms(1) by (auto simp: wf_defs assignTask_def modify_simps)
  moreover have "pays_ok (assignTask k w s)"
    using assms(1)
    by (auto simp: wf_defs assignTask_def modify_simps split: option.splits)
  ultimately show ?thesis by (simp add: consistent_def)
qed

lemma incrementTaskSubmissions_tasks:
  "tasks (incrementTaskSubmissions k s) = modify t_id k incremented (tasks s)"
  by (simp add: incrementTaskSubmissions_def incremented_def [abs_def])

lemma incremented_simps [simp]:
  "t_id (incremented t) = t_id t"
  "rewardSol (incremented t) = rewardSol t"
  "maxSubmissions (incremented t) = maxSubmissions t"
  by (simp_all add: incremented_def Let_def)

lemma cap_ok_increment:
  "cap_ok t \<Longrightarrow> \<not> cap_reached (maxSubmissions t) (current_or_0 t) \<Longrightarrow> cap_ok (incremented t)"
  by (auto simp: incremented_def cap_ok_def current_or_0_def cap_reached_def Let_def
           split: option.splits)

lemma wf_submit:
  assumes "consistent s" "getTask k s = Some t" "getUser w s \<noteq> None"
    "\<not> cap_reached (maxSubmissions t) (current_or_0 t)"
  shows "consistent (incrementTaskSubmissions k (snd (createSubmission d k w pt pd ds s)))"
proof -
  let ?s' = "incrementTaskSubmissions k (snd (createSubmission d k w pt pd ds s))"
  have "\<forall>x \<in> set (tasks ?s'). cap_ok x"
    using assms(1,4) wf_task_unique [OF assms(1,2)] cap_ok_increment [of t]
    by (auto simp: incrementTaskSubmissions_tasks ball_modify consistent_def)
  moreover have "ids_ok ?s'"
    using assms(1)
    by (auto simp: wf_defs incrementTaskSubmissions_tasks modify_simps less_Suc_eq)
  moreover have "refs_ok ?s'"
    using assms(1,2,3)
    by (auto simp: wf_defs incrementTaskSubmissions_tasks modify_simps lookup_append)
  moreover have "pays_ok ?s'"
    using assms(1)
    by (auto simp: wf_defs incrementTaskSubmissions_tasks
          modify_simps lookup_append split: option.splits)
  ultimately show ?thesis by (simp add: consistent_def)
qed

lemma wf_getSubmission:
  "consistent s \<Longrightarrow> sub \<in> set (submissions s) \<Longrightarrow> getSubmission (s_id sub) s = Some sub"
  by (simp add: wf_defs lookup_distinct)

lemma wf_sub_unique:
  "consistent s \<Longrightarrow> sub \<in> set (submissions s) \<Longrightarrow> x \<in> set (submissions s) \<Longrightarrow>
   s_id x = s_id sub \<Longrightarrow> x = sub"
  using lookup_unique [of s_id "submissions s" "s_id sub" sub x] wf_getSubmission [of s sub]
  by (simp add: wf_defs)

lemma wf_pending_unpaid:
  assumes "consistent s" "sub \<in> set (submissions s)" "s_status sub \<noteq> Sub_APPROVED"
    "p \<in> set (payments s)"
  shows "p_submissionId p \<noteq> s_id sub"
proof
  assume "p_submissionId p = s_id sub"
  moreover have "payment_ok s p" using assms(1,4) by (simp add: consistent_def pays_ok_def)
  ultimately show False
    using wf_getSubmission [OF assms(1,2)] assms(3) by (simp add: payment_ok_def)
qed

lemma wf_updateTaskStatus_completed:
  "consistent s \<Longrightarrow> consistent (updateTaskStatus k Task_COMPLETED s)"
  unfolding wf_defs
  by (auto simp: updateTaskStatus_def modify_simps cap_ok_def current_or_0_def split: option.splits)

lemma wf_verdict_status:
  assumes consistent: "consistent s" and sub: "sub \<in> set (submissions s)" and pending: "s_status sub = Sub_PENDING"
    and st: "st = Sub_APPROVED \<longrightarrow> \<not> has_wallet s sub"
  shows "consistent (updateSubmissionStatus d (s_id sub) st vr vs s)"
proof -
  let ?s' = "updateSubmissionStatus d (s_id sub) st vr vs s"
  have unpaid: "\<forall>p \<in> set (payments s). p_submissionId p \<noteq> s_id sub"
    using wf_pending_unpaid [OF consistent sub] pending by simp
  have uniq: "\<forall>x \<in> set (submissions s). s_id x = s_id sub \<longrightarrow> x = sub"
    using wf_sub_unique [OF consistent sub] by simp
  have "ids_ok ?s'"
    using consistent by (auto simp: wf_defs updateSubmissionStatus_def modify_simps)
  moreover have "\<forall>t \<in> set (tasks ?s'). cap_ok t"
    using consistent by (simp add: consistent_def)
  moreover have "refs_ok ?s'"
    using consistent by (auto simp: wf_defs updateSubmissionStatus_def modify_simps)
  moreover have "pays_ok ?s'"
    using consistent unpaid uniq st
    by (auto simp: wf_defs updateSubmissionStatus_def modify_simps split: option.splits)
  ultimately show ?thesis by (simp add: consistent_def)
qed


lemma getUser_frame [simp]:
  "getUser j (updateSubmissionStatus d k st vr vs s) = getUser j s"
  "getUser j (updateTaskStatus k st' s) = getUser j s"
  "getUser j (updatePaymentStatus d k pst sg err s) = getUser j s"
  "getUser j (s\<lparr>trace := tr\<rparr>) = getUser j s"
  by (simp_all add: getUser_def)

lemma getTask_frame [simp]:
  "getTask j (updateSubmissionStatus d k st vr vs s) = getTask j s"
  "getTask j (updatePaymentStatus d k pst sg err s) = getTask j s"
  "getTask j (updateUserEarnings k amount s) = getTask j s"
  "getTask j (s\<lparr>trace := tr\<rparr>) = getTask j s"
  by (simp_all add: getTask_def)

lemma wf_verdict_paid:
  assumes consistent: "consistent s" and sub: "sub \<in> set (submissions s)" and pending: "s_status sub = Sub_PENDING"
    and task: "getTask (s_taskId sub) s = Some task"
    and worker: "getUser (s_workerId sub) s = Some worker"
    and wallet: "truthy (u_walletAddress worker)"
  shows "consistent (snd (createPayment d (s_id sub) (t_id task) (s_workerId sub)
                    (the (u_walletAddress worker)) (rewardSol task)
                    (updateSubmissionStatus d' (s_id sub) Sub_APPROVED vr vs s)))"
proof -
  let ?s1 = "updateSubmissionStatus d' (s_id sub) Sub_APPROVED vr vs s"
  let ?s' = "snd (createPayment d (s_id sub) (t_id task) (s_workerId sub)
                    (the (u_walletAddress worker)) (rewardSol task) ?s1)"
  have unpaid: "\<forall>p \<in> set (payments s). p_submissionId p \<noteq> s_id sub"
    using wf_pending_unpaid [OF consistent sub] pending by simp
  have uniq: "\<forall>x \<in> set (submissions s). s_id x = s_id sub \<longrightarrow> x = sub"
    using wf_sub_unique [OF consistent sub] by simp
  have stored: "lookup s_id (s_id sub) (submissions s) = Some sub"
    using wf_getSubmission [OF consistent sub] by (simp add: getSubmission_def)
  have tid: "t_id task = s_taskId sub"
    using task lookup_Some_D [of t_id "s_taskId sub" "tasks s" task] by (simp add: getTask_def)
  obtain addr where addr: "u_walletAddress worker = Some addr" "addr \<noteq> []"
    using wallet by (auto simp: truthy_def split: option.splits)
  have "ids_ok ?s'"
    using consistent by (auto simp: wf_defs updateSubmissionStatus_def modify_simps less_Suc_eq)
  moreover have "\<forall>t \<in> set (tasks ?s'). cap_ok t"
    using consistent by (simp add: consistent_def)
  moreover have "refs_ok ?s'"
    using consistent by (auto simp: wf_defs updateSubmissionStatus_def modify_simps)
  moreover have "distinct (map p_submissionId (payments ?s'))"
    using consistent unpaid by (auto simp: wf_defs)
  moreover have "\<forall>p \<in> set (payments ?s'). payment_ok ?s' p"
    using consistent unpaid stored task worker addr tid
    by (auto simp: wf_defs updateSubmissionStatus_def modify_simps split: option.splits)
  moreover have "\<forall>x \<in> set (submissions ?s'). s_status x = Sub_APPROVED \<and> has_wallet ?s' x \<longrightarrow>
      s_id x \<in> set (map p_submissionId (payments ?s'))"
    using consistent uniq
    by (auto simp: wf_defs updateSubmissionStatus_def modify_simps split: option.splits)
  ultimately show ?thesis by (simp add: consistent_def pays_ok_def)
qed

lemma wf_record_verdict:
  assumes consistent: "consistent s" and sub: "sub \<in> set (submissions s)" and pending: "s_status sub = Sub_PENDING"
    and task: "getTask (s_taskId sub) s = Some task"
  shows "consistent (record_verdict e sub task r s)"
proof (cases "approved r")
  case False
  then show ?thesis
    using wf_verdict_status [OF consistent sub pending, of Sub_REJECTED]
    by (simp add: record_verdict_def)
next
  case True
  show ?thesis
  proof (cases "has_wallet s sub")
    case False
    then show ?thesis
      using True wf_verdict_status [OF consistent sub pending, of Sub_APPROVED]
      by (auto simp: record_verdict_def has_wallet_def Let_def
            intro!: wf_updateTaskStatus_completed split: option.splits)
  next
    case wallet: True
    then obtain worker where "getUser (s_workerId sub) s = Some worker"
      "truthy (u_walletAddress worker)"
      by (auto simp: has_wallet_def split: option.splits)
    then show ?thesis
      using True wf_verdict_paid [OF consistent sub pending task]
      by (simp add: record_verdict_def Let_def wf_updateTaskStatus_completed)
  qed
qed

section \<open>Routes keep the store well formed\<close>

lemma wf_requireAdminAuth:
  "consistent s \<Longrightarrow> (consistent s \<Longrightarrow> consistent (snd (next s))) \<Longrightarrow> consistent (snd (requireAdminAuth e key next s))"
  by (simp add: requireAdminAuth_def)

lemma wf_post_users: "consistent s \<Longrightarrow> consistent (snd (post_users e uname pw wallet s))"
  by (simp add: post_users_def wf_createUser split: prod.splits)
     (metis wf_createUser snd_conv)

lemma wf_post_tasks: "consistent s \<Longrightarrow> consistent (snd (post_tasks e r s))"
proof -
  assume consistent: "consistent s"
  have "1 \<le> (case ct_maxSubmissions r of None \<Rightarrow> 1 | Some n \<Rightarrow> nat n)"
    if "createTaskRequestSchema e r"
    using that by (auto simp: createTaskRequestSchema_def split: option.splits)
  then show ?thesis
    using consistent wf_createTask [OF consistent, of _ "case ct_maxSubmissions r of None \<Rightarrow> 1 | Some n \<Rightarrow> nat n" "now e"]
    by (auto simp: post_tasks_def split: prod.splits) (metis InsertTask.select_convs(6) snd_conv)
qed

lemma wf_generate_loop: "consistent s \<Longrightarrow> consistent (snd (generate_loop e gs s created))"
proof (induction gs arbitrary: s created)
  case Nil
  then show ?case by simp
next
  case (Cons g gs)
  have "consistent (snd (createTask (now e)
      \<lparr>it_title = g_title g, it_description = g_description g,
       it_taskType = g_taskType g, it_rewardSol = g_rewardSol g,
       it_verificationCriteria = g_verificationCriteria g,
       it_maxSubmissions = Some 1, it_deadline = None\<rparr> s))"
    using wf_createTask [OF Cons.prems, of _ 1] by simp
  then show ?case
    using Cons by (auto split: prod.splits)
qed

lemma wf_post_tasks_generate: "consistent s \<Longrightarrow> consistent (snd (post_tasks_generate e ctx budget n s))"
  by (auto simp: post_tasks_generate_def Let_def split: prod.splits)
     (metis wf_generate_loop snd_conv)

lemma wf_post_tasks_claim: "consistent s \<Longrightarrow> consistent (snd (post_tasks_claim e taskId workerId s))"
  by (auto simp: post_tasks_claim_def Let_def wf_assignTask split: option.splits)

lemma wf_post_submissions: "consistent s \<Longrightarrow> consistent (snd (post_submissions e r s))"
proof -
  assume consistent: "consistent s"
  show ?thesis
  proof (cases "getTask (sp_taskId r) s")
    case None
    then show ?thesis using consistent by (simp add: post_submissions_def split: option.splits)
  next
    case (Some task)
    then have tid: "t_id task = sp_taskId r"
      using lookup_Some_D [of t_id "sp_taskId r" "tasks s" task] by (simp add: getTask_def)
    show ?thesis
      using consistent Some tid wf_submit [OF consistent Some]
      by (auto simp: post_submissions_def split: option.splits prod.splits)
         (metis snd_conv)
  qed
qed

lemma getSubmission_mem: "getSubmission k s = Some sub \<Longrightarrow> sub \<in> set (submissions s) \<and> s_id sub = k"
  using lookup_Some_D [of s_id k "submissions s" sub] by (simp add: getSubmission_def)

lemma wf_post_submissions_verify: "consistent s \<Longrightarrow> consistent (snd (post_submissions_verify e sid s))"
  using getSubmission_mem [of sid s]
  by (auto simp: post_submissions_verify_def call_verifySubmission_def Let_def
        intro!: wf_record_verdict split: option.splits)

lemma wf_verify_batch_item:
  "consistent s \<Longrightarrow> x \<in> set (submissions s) \<Longrightarrow> s_status x = Sub_PENDING \<Longrightarrow>
   consistent (snd (verify_batch_item e x s))"
  by (auto simp: verify_batch_item_def call_verifySubmission_def
        intro!: wf_record_verdict split: option.splits)

lemma record_verdict_submissions:
  "submissions (record_verdict e sub task r s) =
   submissions (updateSubmissionStatus (now e) (s_id sub)
      (if approved r then Sub_APPROVED else Sub_REJECTED)
      (Some (reasoning r)) (Some (toString (score r))) s)"
  by (simp add: record_verdict_def Let_def split: option.splits)

lemma verify_batch_item_others:
  "y \<in> set (submissions s) \<Longrightarrow> s_id y \<noteq> s_id x \<Longrightarrow>
   y \<in> set (submissions (snd (verify_batch_item e x s)))"
  by (auto simp: verify_batch_item_def call_verifySubmission_def record_verdict_submissions
        updateSubmissionStatus_def mem_modify_other split: option.splits)

lemma verify_batch_loop_rule:
  assumes "I xs s acc"
    and "\<And>x xs s acc. I (x # xs) s acc \<Longrightarrow>
           I xs (snd (verify_batch_item e x s))
             (acc @ (case fst (verify_batch_item e x s) of None \<Rightarrow> [] | Some i \<Rightarrow> [i]))"
  shows "I [] (snd (verify_batch_loop e xs s acc)) (fst (verify_batch_loop e xs s acc))"
  using assms(1)
proof (induction xs arbitrary: s acc)
  case Nil
  then show ?case by simp
next
  case (Cons x xs)
  from assms(2) [OF Cons.prems] Cons.IH
  show ?case by (auto split: prod.splits option.splits)
qed

lemma pending_here_step:
  assumes "pending_here (x # xs) s"
  shows "pending_here xs (snd (verify_batch_item e x s))"
proof -
  have "consistent (snd (verify_batch_item e x s))"
    using assms by (simp add: pending_here_def wf_verify_batch_item)
  moreover have "y \<in> set (submissions (snd (verify_batch_item e x s)))" if "y \<in> set xs" for y
  proof -
    have "s_id y \<noteq> s_id x" using assms that by (auto simp: pending_here_def image_iff)
    then show ?thesis using assms that by (auto simp: pending_here_def intro!: verify_batch_item_others)
  qed
  ultimately show ?thesis
    using assms by (simp add: pending_here_def)
qed

lemma pending_here_start: "consistent s \<Longrightarrow> pending_here (getPendingSubmissions s) s"
  by (auto simp: pending_here_def getPendingSubmissions_def wf_defs distinct_map_filter)

lemma wf_post_verify_batch:
  assumes "consistent s"
  shows "consistent (snd (post_verify_batch e s))"
proof -
  have "pending_here [] (snd (verify_batch_loop e (getPendingSubmissions s) s []))"
    by (rule verify_batch_loop_rule [where I = "\<lambda>xs s acc. pending_here xs s"])
       (simp_all add: pending_here_start assms pending_here_step)
  then show ?thesis
    by (simp add: post_verify_batch_def pending_here_def case_prod_beta)
qed

lemma wf_post_payments_process: "consistent s \<Longrightarrow> consistent (snd (post_payments_process e pid s))"
  by (auto simp: post_payments_process_def call_sendPayment_def call_verifyTransaction_def Let_def
        wf_updatePaymentStatus wf_updateUserEarnings wf_addToPaidOut split: option.splits)

lemma wf_process_all_item: "consistent s \<Longrightarrow> consistent (snd (process_all_item e p s))"
  by (auto simp: process_all_item_def call_sendPayment_def
        wf_updatePaymentStatus wf_updateUserEarnings wf_addToPaidOut)

lemma process_all_loop_rule:
  assumes "I xs s acc"
    and "\<And>x xs s acc. I (x # xs) s acc \<Longrightarrow>
           I xs (snd (process_all_item e x s)) (acc @ [fst (process_all_item e x s)])"
  shows "I [] (snd (process_all_loop e xs s acc)) (fst (process_all_loop e xs s acc))"
  using assms(1)
proof (induction xs arbitrary: s acc)
  case Nil
  then show ?case by simp
next
  case (Cons x xs)
  from assms(2) [OF Cons.prems] Cons.IH
  show ?case by (auto split: prod.splits)
qed

lemma wf_post_payments_process_all:
  assumes "consistent s"
  shows "consistent (snd (post_payments_process_all e s))"
proof -
  have "consistent (snd (process_all_loop e (getPendingPayments s) s []))"
    by (rule process_all_loop_rule [where I = "\<lambda>xs s acc. consistent s"])
       (simp_all add: assms wf_process_all_item)
  then show ?thesis
    by (simp add: post_payments_process_all_def case_prod_beta)
qed

lemma wf_post_budget_claim_rewards: "consistent s \<Longrightarrow> consistent (snd (post_budget_claim_rewards e wallet s))"
  by (auto simp: post_budget_claim_rewards_def Let_def wf_updateBudget)

lemma wf_handle: "consistent s \<Longrightarrow> consistent (snd (handle e req s))"
  by (cases req)
     (simp_all add: wf_requireAdminAuth wf_post_users wf_post_tasks wf_post_tasks_generate
        wf_post_tasks_claim wf_post_submissions wf_post_submissions_verify wf_post_verify_batch
        wf_post_payments_process wf_post_payments_process_all wf_post_budget_claim_rewards)

lemma reachable_wf: "reachable s \<Longrightarrow> consistent s"
  by (induction rule: reachable.induct) (simp_all add: wf_init wf_handle)

section \<open>The batch loops\<close>

lemma consistent_getTask:
  "consistent s \<Longrightarrow> t \<in> set (tasks s) \<Longrightarrow> getTask (t_id t) s = Some t"
  by (simp add: wf_defs lookup_distinct)

lemma getPayment_mem: "getPayment k s = Some p \<Longrightarrow> p \<in> set (payments s) \<and> p_id p = k"
  using lookup_Some_D [of p_id k "payments s" p] by (simp add: getPayment_def)

lemma lookup_mem_Some: "k \<in> set (map key xs) \<Longrightarrow> \<exists>y. lookup key k xs = Some y"
  using lookup_None_iff [of key k xs] by (cases "lookup key k xs") auto

lemma processing_snapshot:
  assumes "k \<in> set (map p_id (payments s))"
  shows "processing_at_call (Ev_sendPayment k
     (payments (updatePaymentStatus d k Pay_PROCESSING sg err s)))"
proof -
  obtain y where "lookup p_id k (payments s) = Some y"
    using lookup_mem_Some [OF assms] by blast
  then show ?thesis
    by (simp add: processing_at_call_def updatePaymentStatus_def lookup_modify)
qed

lemma process_trace:
  assumes "getPayment pid s = Some p"
  shows "\<exists>new. trace (snd (post_payments_process e pid s)) = trace s @ new \<and>
           (\<forall>ev \<in> set new. processing_at_call ev)"
proof -
  have p: "p_id p \<in> set (map p_id (payments s))" "p_id p = pid"
    using getPayment_mem [OF assms] by auto
  show ?thesis
    using assms processing_snapshot [OF p(1), of "now e" None None]
    by (auto simp: post_payments_process_def call_sendPayment_def call_verifyTransaction_def
          Let_def processing_at_call_def p(2))
qed

lemma process_all_item_trace:
  assumes "p_id p \<in> set (map p_id (payments s))"
  shows "\<exists>new. trace (snd (process_all_item e p s)) = trace s @ new \<and>
           (\<forall>ev \<in> set new. processing_at_call ev)"
  using processing_snapshot [OF assms, of "now e" None None]
  by (auto simp: process_all_item_def call_sendPayment_def)

lemma process_all_item_ids:
  "map p_id (payments (snd (process_all_item e p s))) = map p_id (payments s)"
  by (auto simp: process_all_item_def call_sendPayment_def updatePaymentStatus_def map_modify_same)


lemma transfers_ok_step:
  assumes "transfers_ok s0 (x # xs) s"
  shows "transfers_ok s0 xs (snd (process_all_item e x s))"
proof -
  have x: "p_id x \<in> set (map p_id (payments s))"
    using assms by (simp add: transfers_ok_def)
  obtain new where new: "trace s = trace s0 @ new" "\<forall>ev \<in> set new. processing_at_call ev"
    using assms by (auto simp: transfers_ok_def)
  obtain new' where new': "trace (snd (process_all_item e x s)) = trace s @ new'"
      "\<forall>ev \<in> set new'. processing_at_call ev"
    using process_all_item_trace [OF x] by blast
  have "trace (snd (process_all_item e x s)) = trace s0 @ (new @ new')"
    using new(1) new'(1) by simp
  moreover have "\<forall>ev \<in> set (new @ new'). processing_at_call ev"
    using new(2) new'(2) by auto
  ultimately have "\<exists>n. trace (snd (process_all_item e x s)) = trace s0 @ n \<and>
      (\<forall>ev \<in> set n. processing_at_call ev)"
    by blast
  then show ?thesis
    using assms by (simp add: transfers_ok_def process_all_item_ids)
qed

lemma process_all_loop_trace:
  assumes "\<forall>x \<in> set xs. p_id x \<in> set (map p_id (payments s))"
  shows "\<exists>new. trace (snd (process_all_loop e xs s acc)) = trace s @ new \<and>
           (\<forall>ev \<in> set new. processing_at_call ev)"
proof -
  have "transfers_ok s xs s" using assms by (simp add: transfers_ok_def)
  then have "transfers_ok s [] (snd (process_all_loop e xs s acc))"
    using process_all_loop_rule [of "\<lambda>xs s' acc. transfers_ok s xs s'" xs s acc e]
      transfers_ok_step by blast
  then show ?thesis by (simp add: transfers_ok_def)
qed
















section \<open>What each route leaves alone\<close>

lemma requireAdminAuth_cases:
  "requireAdminAuth e key next s = next s \<or> snd (requireAdminAuth e key next s) = s"
  by (simp add: requireAdminAuth_def)














section \<open>A decided submission stays as it is\<close>























lemma completed_total_Nil [simp]: "completed_total [] = Num 0"
  by (simp add: completed_total_def)

lemma completed_total_Cons [simp]:
  "completed_total (p # ps) =
     (if p_status p = Pay_COMPLETED then num_add (parseFloat (amountSol p)) (completed_total ps)
      else completed_total ps)"
  by (simp add: completed_total_def)

lemma completed_total_pending [simp]:
  "p_status p \<noteq> Pay_COMPLETED \<Longrightarrow> completed_total (ps @ [p]) = completed_total ps"
  by (induction ps) simp_all



lemma budget_matches_trace [simp]: "budget_matches (s\<lparr>trace := tr\<rparr>) = budget_matches s"
  by (simp add: budget_matches_def split: option.splits)

lemma budget_matches_users [simp]:
  "budget_matches (updateUserEarnings k a s) = budget_matches s"
  by (simp add: budget_matches_def split: option.splits)


























lemma getPayment_frame [simp]:
  "getPayment j (updateUserEarnings k amount s) = getPayment j s"
  "getPayment j (addToPaidOut d amount s) = getPayment j s"
  "getPayment j (s\<lparr>trace := tr\<rparr>) = getPayment j s"
  by (simp_all add: getPayment_def)




section \<open>The judge and the service-error test\<close>



section \<open>Settlement of one payment and of all payments\<close>

text \<open>
  Claim C1. In the run above the confirmation checker reports the transfer as not
  confirmed. The single-payment route then records the payment as failed and pays nothing
  to the worker. The batch route never calls the confirmation checker: it records the same
  payment as completed, stamps the completion time and adds the amount to the worker's
  earnings.
\<close>

theorem process_all_completes_unconfirmed:
  "verifyTransaction demo_env ''sig'' = False \<and>
   sendPayment demo_env ''W'' (Num (1 / 20)) =
     \<lparr>success = True, signature = Some ''sig'', error = None\<rparr> \<and>
   payments (snd (post_payments_process_all demo_env world_approved)) =
     [demo_payment\<lparr>p_status := Pay_COMPLETED, transactionSignature := Some ''sig'',
                   completedAt := Some 7\<rparr>] \<and>
   users (snd (post_payments_process_all demo_env world_approved)) =
     [demo_user\<lparr>totalEarnings := Num (1 / 20), tasksCompleted := 1\<rparr>] \<and>
   trace (snd (post_payments_process_all demo_env world_approved)) =
     [Ev_verifySubmission 1 2, Ev_sendPayment 3 [demo_payment\<lparr>p_status := Pay_PROCESSING\<rparr>]] \<and>
   payments (snd (post_payments_process demo_env 3 world_approved)) =
     [demo_payment\<lparr>p_status := Pay_FAILED,
                   errorMessage := Some ''Transaction not confirmed''\<rparr>] \<and>
   users (snd (post_payments_process demo_env 3 world_approved)) = [demo_user]"
  by (simp add: demo_defs store_defs route_defs Let_def)


section \<open>Submission cap\<close>

text \<open>
  Claim C5. In every reachable store each task has a cap, its counter of submissions is at
  most the cap, and when the counter equals the cap the status is
  \<open>pending_verification\<close>, \<open>completed\<close> or \<open>cancelled\<close>; a request to submit
  against such a task is answered with an error (400 or 404) and leaves the store as it
  was, so no submission is stored.
\<close>

theorem submissions_within_cap:
  assumes "reachable s" and "t \<in> set (tasks s)"
  shows "\<exists>m. maxSubmissions t = Some m \<and> current_or_0 t \<le> m \<and>
           (current_or_0 t = m \<longrightarrow>
              t_status t \<in> {Task_PENDING_VERIFICATION, Task_COMPLETED, Task_CANCELLED} \<and>
              (\<forall>e r. sp_taskId r = t_id t \<longrightarrow>
                 snd (post_submissions e r s) = s \<and>
                 fst (fst (post_submissions e r s)) \<in> {400, 404}))"
proof -
  have ok: "consistent s" using assms(1) by (rule reachable_wf)
  then have "cap_ok t" using assms(2) by (simp add: consistent_def)
  then obtain m where m: "maxSubmissions t = Some m" "1 \<le> m" "current_or_0 t \<le> m"
    "current_or_0 t < m \<or> t_status t \<in> {Task_PENDING_VERIFICATION, Task_COMPLETED, Task_CANCELLED}"
    by (auto simp: cap_ok_def split: option.splits)
  have task: "getTask (t_id t) s = Some t"
    using ok assms(2) by (rule consistent_getTask)
  have "snd (post_submissions e r s) = s \<and> fst (fst (post_submissions e r s)) \<in> {400, 404}"
    if "current_or_0 t = m" "sp_taskId r = t_id t" for e r
    using that m task
    by (auto simp: post_submissions_def cap_reached_def split: option.splits)
  then show ?thesis using m by auto
qed

theorem submissions_within_cap_witness:
  "reachable world_submitted \<and>
   demo_task\<lparr>t_status := Task_PENDING_VERIFICATION, currentSubmissions := Some 1\<rparr>
     \<in> set (tasks world_submitted) \<and>
   maxSubmissions demo_task = Some 1 \<and>
   post_submissions demo_env demo_proof world_submitted =
     ((400, B_error ''Maximum submissions reached for this task''), world_submitted)"
  using submissions_within_cap [OF reachable_world_submitted,
      of "demo_task\<lparr>t_status := Task_PENDING_VERIFICATION, currentSubmissions := Some 1\<rparr>"]
    reachable_world_submitted
  by (simp add: demo_defs store_defs route_defs)

section \<open>Order of the commit and the transfer\<close>

text \<open>
  Claim C9. Every call of the transfer executor made by the single-payment route or by
  the batch route is made when the store already holds the payment with status
  \<open>processing\<close>: each \<open>Ev_sendPayment\<close> event the route appends to the trace carries a
  snapshot of the payments in which that payment is \<open>processing\<close>.
\<close>

theorem processing_committed_before_transfer:
  "(\<forall>p. getPayment pid s = Some p \<longrightarrow>
      (\<exists>new. trace (snd (post_payments_process e pid s)) = trace s @ new \<and>
             (\<forall>ev \<in> set new. processing_at_call ev))) \<and>
   (\<exists>new. trace (snd (post_payments_process_all e s)) = trace s @ new \<and>
          (\<forall>ev \<in> set new. processing_at_call ev))"
proof (intro conjI allI impI)
  fix p assume "getPayment pid s = Some p"
  then show "\<exists>new. trace (snd (post_payments_process e pid s)) = trace s @ new \<and>
             (\<forall>ev \<in> set new. processing_at_call ev)"
    by (rule process_trace)
next
  have "\<forall>x \<in> set (getPendingPayments s). p_id x \<in> set (map p_id (payments s))"
    by (auto simp: getPendingPayments_def)
  from process_all_loop_trace [OF this, of e "[]"]
  show "\<exists>new. trace (snd (post_payments_process_all e s)) = trace s @ new \<and>
          (\<forall>ev \<in> set new. processing_at_call ev)"
    by (simp add: post_payments_process_all_def case_prod_beta)
qed

theorem processing_committed_before_transfer_witness:
  "getPayment 3 world_approved = Some demo_payment \<and>
   trace (snd (post_payments_process demo_env 3 world_approved)) =
     trace world_approved @
       [Ev_sendPayment 3 [demo_payment\<lparr>p_status := Pay_PROCESSING\<rparr>],
        Ev_verifyTransaction ''sig''] \<and>
   processing_at_call (Ev_sendPayment 3 [demo_payment\<lparr>p_status := Pay_PROCESSING\<rparr>]) \<and>
   trace (snd (post_payments_process_all demo_env world_approved)) =
     trace world_approved @ [Ev_sendPayment 3 [demo_payment\<lparr>p_status := Pay_PROCESSING\<rparr>]]"
  using processing_committed_before_transfer [of 3 world_approved demo_env]
  by (simp add: demo_defs store_defs route_defs processing_at_call_def Let_def)

section \<open>Results of the batch routes\<close>



section \<open>A submission is decided once\<close>



section \<open>A failed judge call\<close>



section \<open>Payments of approved submissions\<close>




section \<open>The paid-out total of the budget\<close>




end
